theory Spec2Isabelle
  imports Main
begin

section \<open>Errors and strings of the JavaScript runtime\<close>

text \<open>
  The route handlers are TypeScript run by Node. A thrown value is modelled as a value of
  \<open>js_error\<close>; the two Prisma classes that the handlers test with \<^verbatim>\<open>instanceof\<close>
  are kept apart from every other thrown value. A known request error carries its
  \<^verbatim>\<open>code\<close> and its \<^verbatim>\<open>message\<close>.
\<close>

datatype js_error =
    PrismaClientKnownRequestError string string
  | PrismaClientValidationError string
  | OtherError string

text \<open>
  \<^verbatim>\<open>s.startsWith(t)\<close> and \<^verbatim>\<open>s.includes(t)\<close> on strings taken as lists of
  characters. Both only compare code units for equality.
\<close>

fun startsWith :: "string \<Rightarrow> string \<Rightarrow> bool" where
  "startsWith s [] = True"
| "startsWith [] (c # cs) = False"
| "startsWith (x # xs) (c # cs) = (x = c \<and> startsWith xs cs)"

fun includes_str :: "string \<Rightarrow> string \<Rightarrow> bool" where
  "includes_str [] t = (t = [])"
| "includes_str (x # xs) t = (startsWith (x # xs) t \<or> includes_str xs t)"

section \<open>The thumbnail path helper of the cache route\<close>

text \<open>
  What \<^verbatim>\<open>validateThumbnailPath\<close> reads from its surroundings: the working directory
  (\<^verbatim>\<open>process.cwd()\<close>, which throws when the directory is gone), Node's
  \<^verbatim>\<open>path.resolve\<close> and \<^verbatim>\<open>fs.existsSync\<close>. They are library code and are taken as
  parameters.
\<close>

record fs_env =
  process_cwd :: "js_error + string"
  path_resolve :: "string list \<Rightarrow> string"
  existsSync :: "string \<Rightarrow> bool"

definition placeholder :: string where
  "placeholder = ''/img/fedi_placeholder.png''"

text \<open>The body of the \<^verbatim>\<open>try\<close> block: does the file behind a local path exist?\<close>

definition local_file_exists :: "'a fs_env_scheme \<Rightarrow> string \<Rightarrow> js_error + bool" where
  "local_file_exists fs thumbnailPath =
     (let relativePath =
            (if startsWith thumbnailPath ''/'' then drop 1 thumbnailPath else thumbnailPath)
      in case process_cwd fs of
           Inl e \<Rightarrow> Inl e
         | Inr cwd \<Rightarrow> Inr (existsSync fs (path_resolve fs [cwd, ''public'', relativePath])))"

text \<open>
  The argument is \<open>None\<close> for \<^verbatim>\<open>null\<close> or \<^verbatim>\<open>undefined\<close>, which the first test
  (\<^verbatim>\<open>!thumbnailPath\<close>) accepts at run time.
\<close>

definition validateThumbnailPath :: "'a fs_env_scheme \<Rightarrow> string option \<Rightarrow> string" where
  "validateThumbnailPath fs thumbnailPath =
     (case thumbnailPath of
        None \<Rightarrow> placeholder
      | Some p \<Rightarrow>
          if p = [] then placeholder
          else if includes_str p ''/img/img/'' then placeholder
          else if startsWith p ''/img/'' then
            (case local_file_exists fs p of
               Inr True \<Rightarrow> p
             | Inr False \<Rightarrow> placeholder
             | Inl err \<Rightarrow> placeholder)
          else p)"

section \<open>The two tables\<close>

text \<open>
  The columns of \<^verbatim>\<open>instances\<close> and \<^verbatim>\<open>instanceData\<close> that the handlers read or
  write. The columns of \<^verbatim>\<open>instanceData\<close> other than \<^verbatim>\<open>cache\<close> are not given when
  the row is created, so they are nullable here.
\<close>

record instances_row =
  inst_id :: nat
  inst_name :: "string option"
  inst_type :: string
  nsfwflag :: string
  uri :: string
  api_mode :: string
  api_key :: string
  verified :: bool
  failed_checks :: int
  banned :: bool
  ban_reason :: "string option"

record instanceData_row =
  instance_id :: nat
  title :: "string option"
  description :: "string option"
  thumbnail :: "string option"
  user_count :: "int option"
  status_count :: "int option"
  registrations :: "bool option"
  approval_required :: "bool option"
  cache :: string

record store =
  instances :: "instances_row list"
  instanceData :: "instanceData_row list"

text \<open>What \<^verbatim>\<open>InstanceFetcher.checkAvailable\<close> resolves to when it is not \<^verbatim>\<open>false\<close>.\<close>

record fetched =
  f_title :: string
  f_description :: string
  f_thumbnail :: "string option"
  f_user_count :: int
  f_status_count :: int
  f_registrations :: bool
  f_approval_required :: bool

text \<open>What \<^verbatim>\<open>testURI\<close> resolves to when it is not \<^verbatim>\<open>false\<close>.\<close>

record cachedata =
  cd_title :: "string option"
  cd_contact_username :: "string option"

datatype db_op =
    FindManyInstances
  | UpdateInstanceData nat
  | UpdateInstances nat
  | CreateInstances string
  | UpdateInstancesByUri string

text \<open>
  Calls that leave the process, in the order they are made. A probe is recorded with the
  id of the row whose \<^verbatim>\<open>uri\<close> and \<^verbatim>\<open>api_mode\<close> it was given.
\<close>

datatype event =
    Probe nat string string
  | RevalidateTag string
  | RevalidatePath string
  | FetchPost string
  | PostStatus string

text \<open>
  Everything outside the handlers, taken as parameters: the probe
  \<^verbatim>\<open>InstanceFetcher.checkAvailable\<close> and \<^verbatim>\<open>testURI\<close>, which are imported from
  other modules (\<^verbatim>\<open>testURI\<close> is called twice in a row, so it takes the number of
  the call); errors of the database layer, one possible error for each call the handlers
  make; the three invalidation primitives; \<^verbatim>\<open>NODE_ENV\<close>; \<^verbatim>\<open>JSON.stringify\<close>; and
  the rows that the defaults of the Prisma schema produce for the columns a
  \<^verbatim>\<open>create\<close> does not give.
\<close>

record env = fs_env +
  checkAvailable :: "string \<Rightarrow> string \<Rightarrow> js_error + fetched option"
  testURI :: "nat \<Rightarrow> string \<Rightarrow> js_error + cachedata option"
  storage_fault :: "db_op \<Rightarrow> js_error option"
  revalidateTag :: "string \<Rightarrow> js_error option"
  revalidatePath :: "string \<Rightarrow> js_error option"
  fetch_post :: "string \<Rightarrow> js_error + nat"
  node_env :: "string option"
  json_stringify :: "cachedata option \<Rightarrow> string"
  instances_defaults :: "store \<Rightarrow> instances_row"
  instanceData_defaults :: "store \<Rightarrow> instanceData_row"

record request =
  host_header :: "string option"

record http_response =
  status :: nat
  body :: "(string \<times> string) list"

section \<open>Database operations\<close>

text \<open>
  \<^verbatim>\<open>update({ where: <unique key>, data })\<close> changes the one row with the key and
  rejects with a known request error when there is none.
\<close>

fun update_first :: "('a \<Rightarrow> bool) \<Rightarrow> ('a \<Rightarrow> 'a) \<Rightarrow> 'a list \<Rightarrow> 'a list option" where
  "update_first P f [] = None"
| "update_first P f (x # xs) =
     (if P x then Some (f x # xs) else map_option ((#) x) (update_first P f xs))"

definition not_found :: js_error where
  "not_found = PrismaClientKnownRequestError ''P2025'' ''Record to update not found.''"

definition prisma_instanceData_update ::
  "env \<Rightarrow> nat \<Rightarrow> (instanceData_row \<Rightarrow> instanceData_row) \<Rightarrow> store \<Rightarrow> js_error + store" where
  "prisma_instanceData_update env k f st =
     (case storage_fault env (UpdateInstanceData k) of
        Some e \<Rightarrow> Inl e
      | None \<Rightarrow>
          (case update_first (\<lambda>r. instance_id r = k) f (instanceData st) of
             None \<Rightarrow> Inl not_found
           | Some rows \<Rightarrow> Inr (st\<lparr>instanceData := rows\<rparr>)))"

definition prisma_instances_update ::
  "env \<Rightarrow> nat \<Rightarrow> (instances_row \<Rightarrow> instances_row) \<Rightarrow> store \<Rightarrow> js_error + store" where
  "prisma_instances_update env k f st =
     (case storage_fault env (UpdateInstances k) of
        Some e \<Rightarrow> Inl e
      | None \<Rightarrow>
          (case update_first (\<lambda>r. inst_id r = k) f (instances st) of
             None \<Rightarrow> Inl not_found
           | Some rows \<Rightarrow> Inr (st\<lparr>instances := rows\<rparr>)))"

definition prisma_instances_update_by_uri ::
  "env \<Rightarrow> string \<Rightarrow> (instances_row \<Rightarrow> instances_row) \<Rightarrow> store \<Rightarrow> js_error + store" where
  "prisma_instances_update_by_uri env u f st =
     (case storage_fault env (UpdateInstancesByUri u) of
        Some e \<Rightarrow> Inl e
      | None \<Rightarrow>
          (case update_first (\<lambda>r. uri r = u) f (instances st) of
             None \<Rightarrow> Inl not_found
           | Some rows \<Rightarrow> Inr (st\<lparr>instances := rows\<rparr>)))"

text \<open>\<^verbatim>\<open>findMany({ where: { banned: false } })\<close>\<close>

definition findMany_not_banned :: "env \<Rightarrow> store \<Rightarrow> js_error + instances_row list" where
  "findMany_not_banned env st =
     (case storage_fault env FindManyInstances of
        Some e \<Rightarrow> Inl e
      | None \<Rightarrow> Inr (filter (\<lambda>r. banned r = False) (instances st)))"

section \<open>The invalidation helper\<close>

text \<open>
  The statements inside the outer \<^verbatim>\<open>try\<close> of \<^verbatim>\<open>triggerRevalidation\<close>: a throw
  of an earlier statement skips the later ones. The inner \<^verbatim>\<open>try\<close> around
  \<^verbatim>\<open>fetch\<close> only logs.
\<close>

definition revalidation_body :: "env \<Rightarrow> request \<Rightarrow> (js_error + unit) \<times> event list" where
  "revalidation_body env request =
     (case revalidateTag env ''instances'' of
        Some e \<Rightarrow> (Inl e, [RevalidateTag ''instances''])
      | None \<Rightarrow>
          (case revalidatePath env ''/'' of
             Some e \<Rightarrow> (Inl e, [RevalidateTag ''instances'', RevalidatePath ''/''])
           | None \<Rightarrow>
               (let host = (case host_header request of
                              None \<Rightarrow> ''localhost:3000''
                            | Some h \<Rightarrow> if h = [] then ''localhost:3000'' else h);
                    protocol = (if node_env env = Some ''production'' then ''https'' else ''http'');
                    baseUrl = protocol @ ''://'' @ host;
                    evs = [RevalidateTag ''instances'', RevalidatePath ''/'',
                           FetchPost (baseUrl @ ''/api/revalidate'')]
                in case fetch_post env (baseUrl @ ''/api/revalidate'') of
                     Inl apiErr \<Rightarrow> (Inr (), evs)
                   | Inr response_status \<Rightarrow> (Inr (), evs))))"

text \<open>\<^verbatim>\<open>try { ... } catch (revalErr) { console.log(...) }\<close>\<close>

definition catch_and_log :: "(js_error + unit) \<times> event list \<Rightarrow> (js_error + unit) \<times> event list" where
  "catch_and_log r = (case r of (Inl revalErr, evs) \<Rightarrow> (Inr (), evs) | (Inr u, evs) \<Rightarrow> (Inr u, evs))"

definition triggerRevalidation :: "env \<Rightarrow> request \<Rightarrow> (js_error + unit) \<times> event list" where
  "triggerRevalidation env request = catch_and_log (revalidation_body env request)"

section \<open>The sweep: \<^verbatim>\<open>GET\<close> of the cache route\<close>

definition ban_text :: string where
  "ban_text = ''Instance failed 5 checks in a row''"

text \<open>
  The two arms of the \<^verbatim>\<open>if (updateInstance != false)\<close>. The row \<open>inst\<close> is the one
  read by \<^verbatim>\<open>findMany\<close> before the loop; the comparison and the increment use its
  \<^verbatim>\<open>failed_checks\<close>.
\<close>

definition on_available ::
  "env \<Rightarrow> instances_row \<Rightarrow> fetched \<Rightarrow> store \<Rightarrow> (js_error + unit) \<times> store" where
  "on_available env inst updateInstance st =
     (let validatedThumbnail = validateThumbnailPath env (f_thumbnail updateInstance)
      in case prisma_instanceData_update env (inst_id inst)
                (\<lambda>r. r\<lparr>title := Some (f_title updateInstance),
                         description := Some (f_description updateInstance),
                         thumbnail := Some validatedThumbnail,
                         user_count := Some (f_user_count updateInstance),
                         status_count := Some (f_status_count updateInstance),
                         registrations := Some (f_registrations updateInstance),
                         approval_required := Some (f_approval_required updateInstance)\<rparr>) st of
           Inl e \<Rightarrow> (Inl e, st)
         | Inr st1 \<Rightarrow>
             (case prisma_instances_update env (inst_id inst) (\<lambda>r. r\<lparr>failed_checks := 0\<rparr>) st1 of
                Inl e \<Rightarrow> (Inl e, st1)
              | Inr st2 \<Rightarrow> (Inr (), st2)))"

definition on_unavailable :: "env \<Rightarrow> instances_row \<Rightarrow> store \<Rightarrow> (js_error + unit) \<times> store" where
  "on_unavailable env inst st =
     (if failed_checks inst \<ge> 5 then
        (case prisma_instances_update env (inst_id inst)
                (\<lambda>r. r\<lparr>banned := True, ban_reason := Some ban_text\<rparr>) st of
           Inl e \<Rightarrow> (Inl e, st)
         | Inr st1 \<Rightarrow> (Inr (), st1))
      else
        (case prisma_instances_update env (inst_id inst)
                (\<lambda>r. r\<lparr>failed_checks := failed_checks inst + 1\<rparr>) st of
           Inl e \<Rightarrow> (Inl e, st)
         | Inr st1 \<Rightarrow> (Inr (), st1)))"

text \<open>The body of the \<^verbatim>\<open>try\<close> inside the loop, for one row.\<close>

definition check_instance ::
  "env \<Rightarrow> instances_row \<Rightarrow> store \<Rightarrow> (js_error + unit) \<times> store \<times> event list" where
  "check_instance env inst st =
     (let evs = [Probe (inst_id inst) (uri inst) (api_mode inst)]
      in case checkAvailable env (uri inst) (api_mode inst) of
           Inl e \<Rightarrow> (Inl e, st, evs)
         | Inr None \<Rightarrow> (case on_unavailable env inst st of (r, st1) \<Rightarrow> (r, st1, evs))
         | Inr (Some fetched_info) \<Rightarrow>
             (let updateInstance =
                    (if f_thumbnail fetched_info = None
                     then fetched_info\<lparr>f_thumbnail := Some ''/img/fedi_placeholder.png''\<rparr>
                     else fetched_info)
              in case on_available env inst updateInstance st of (r, st1) \<Rightarrow> (r, st1, evs)))"

text \<open>
  The loop with its \<^verbatim>\<open>catch\<close>: the two Prisma classes return a 400 response from
  inside the loop, any other thrown value falls out of the \<^verbatim>\<open>catch\<close> and the loop
  goes on. The result is \<open>Some\<close> of the response returned from inside the loop.
\<close>

fun sweep_loop ::
  "env \<Rightarrow> instances_row list \<Rightarrow> store \<Rightarrow> http_response option \<times> store \<times> event list" where
  "sweep_loop env [] st = (None, st, [])"
| "sweep_loop env (inst # rest) st =
     (case check_instance env inst st of
        (Inr u, st1, evs) \<Rightarrow>
          (case sweep_loop env rest st1 of (r, st2, evs2) \<Rightarrow> (r, st2, evs @ evs2))
      | (Inl (PrismaClientKnownRequestError c m), st1, evs) \<Rightarrow>
          (Some \<lparr>status = 400, body = [(''message'', m)]\<rparr>, st1, evs)
      | (Inl (PrismaClientValidationError m), st1, evs) \<Rightarrow>
          (Some \<lparr>status = 400, body = [(''message'', m)]\<rparr>, st1, evs)
      | (Inl (OtherError m), st1, evs) \<Rightarrow>
          (case sweep_loop env rest st1 of (r, st2, evs2) \<Rightarrow> (r, st2, evs @ evs2)))"

definition GET ::
  "env \<Rightarrow> request \<Rightarrow> store \<Rightarrow> (js_error + http_response) \<times> store \<times> event list" where
  "GET env request st =
     (case findMany_not_banned env st of
        Inl e \<Rightarrow> (Inl e, st, [])
      | Inr allInstances \<Rightarrow>
          (case sweep_loop env allInstances st of
             (Some early, st1, evs) \<Rightarrow> (Inr early, st1, evs)
           | (None, st1, evs) \<Rightarrow>
               (case triggerRevalidation env request of
                  (Inl e, evs2) \<Rightarrow> (Inl e, st1, evs @ evs2)
                | (Inr u, evs2) \<Rightarrow>
                    (Inr \<lparr>status = 200, body = [(''message'', ''successfully updated instances'')]\<rparr>,
                     st1, evs @ evs2))))"

section \<open>Registration: the handler of \<^verbatim>\<open>add.ts\<close>\<close>

record add_request =
  req_method :: string
  body_uri :: string
  body_type :: string
  body_nsfwflag :: string

definition unique_violation :: js_error where
  "unique_violation = PrismaClientKnownRequestError ''P2002'' ''Unique constraint failed on the fields: (uri)''"

text \<open>
  \<^verbatim>\<open>instances.create\<close> with the nested \<^verbatim>\<open>InstanceData: { create: { cache } }\<close>.
  \<^verbatim>\<open>uri\<close> is a unique key (the handlers address rows by it), so a second row with
  the same \<^verbatim>\<open>uri\<close> is rejected with code P2002, which the handler tests for.
\<close>

definition prisma_instances_create ::
  "env \<Rightarrow> string option \<Rightarrow> string \<Rightarrow> string \<Rightarrow> string \<Rightarrow> bool \<Rightarrow> string \<Rightarrow> store
     \<Rightarrow> js_error + instances_row \<times> store" where
  "prisma_instances_create env name_v type_v nsfwflag_v uri_v verified_v cache_v st =
     (case storage_fault env (CreateInstances uri_v) of
        Some e \<Rightarrow> Inl e
      | None \<Rightarrow>
          if uri_v \<in> set (map uri (instances st)) then Inl unique_violation
          else
            (let row = (instances_defaults env st)
                         \<lparr>inst_name := name_v, inst_type := type_v, nsfwflag := nsfwflag_v,
                          uri := uri_v, verified := verified_v\<rparr>;
                 data_row = (instanceData_defaults env st)
                         \<lparr>instance_id := inst_id row, cache := cache_v\<rparr>
             in Inr (row, st\<lparr>instances := instances st @ [row],
                             instanceData := instanceData st @ [data_row]\<rparr>)))"

definition toot_text :: "string \<Rightarrow> string \<Rightarrow> string \<Rightarrow> string" where
  "toot_text username uri_v key =
     ''@'' @ username @ ''@'' @ uri_v @
     '' Hi there someone is attempting to register your instance on TransFediverse, if this is you. Please click this link to finish the registation: https://transfediverse.org/api/instances/verify/'' @
     key"

text \<open>
  The \<^verbatim>\<open>try\<close> block. \<open>cachedata\<close> is \<open>None\<close> when the second \<^verbatim>\<open>testURI\<close>
  resolved to \<^verbatim>\<open>false\<close>, whose properties all read as \<^verbatim>\<open>undefined\<close>.
\<close>

definition add_try ::
  "env \<Rightarrow> add_request \<Rightarrow> cachedata option \<Rightarrow> store
     \<Rightarrow> (js_error + http_response) \<times> store \<times> event list" where
  "add_try env instanceData_v cachedata_v st =
     (case prisma_instances_create env
             (case cachedata_v of None \<Rightarrow> None | Some c \<Rightarrow> cd_title c)
             (body_type instanceData_v) (body_nsfwflag instanceData_v) (body_uri instanceData_v)
             False (json_stringify env cachedata_v) st of
        Inl e \<Rightarrow> (Inl e, st, [])
      | Inr (savedInstance, st1) \<Rightarrow>
          (case prisma_instances_update_by_uri env (body_uri instanceData_v)
                  (\<lambda>r. r\<lparr>verified := False\<rparr>) st1 of
             Inl e \<Rightarrow> (Inl e, st1, [])
           | Inr st2 \<Rightarrow>
               (case (case cachedata_v of None \<Rightarrow> None | Some c \<Rightarrow> cd_contact_username c) of
                  None \<Rightarrow>
                    (Inr \<lparr>status = 200,
                          body = [(''message'', ''Added instance successfully, but you will need to manually verify it. Please message @effy@effy.space from an admin account.''),
                                  (''type'', ''success'')]\<rparr>, st2, [])
                | Some username \<Rightarrow>
                    if username = [] then
                      (Inr \<lparr>status = 200,
                            body = [(''message'', ''Added instance successfully, but you will need to manually verify it. Please message @effy@effy.space from an admin account.''),
                                    (''type'', ''success'')]\<rparr>, st2, [])
                    else
                      (Inr \<lparr>status = 200,
                            body = [(''message'', ''Added instance successfully, your instance admin account needs to be verfied! Check your DMs!''),
                                    (''type'', ''success'')]\<rparr>, st2,
                       [PostStatus (toot_text username (body_uri instanceData_v)
                                      (api_key savedInstance))]))))"

text \<open>The \<^verbatim>\<open>catch\<close>: a thrown value of neither Prisma class leaves the request unanswered.\<close>

fun add_catch :: "js_error \<Rightarrow> http_response option" where
  "add_catch (PrismaClientKnownRequestError c m) =
     (if c = ''P2002''
      then Some \<lparr>status = 400, body = [(''message'', ''Instance already exists''), (''type'', ''error'')]\<rparr>
      else Some \<lparr>status = 400, body = [(''message'', m), (''type'', ''error'')]\<rparr>)"
| "add_catch (PrismaClientValidationError m) =
     Some \<lparr>status = 400, body = [(''message'', m), (''type'', ''error'')]\<rparr>"
| "add_catch (OtherError m) = None"

text \<open>
  The exported handler. The result is \<open>Inl\<close> when a \<^verbatim>\<open>testURI\<close> call outside the
  \<^verbatim>\<open>try\<close> throws, and \<open>Inr None\<close> when no response is written.
\<close>

definition add_handler ::
  "env \<Rightarrow> add_request \<Rightarrow> store \<Rightarrow> (js_error + http_response option) \<times> store \<times> event list" where
  "add_handler env req st =
     (if req_method req \<noteq> ''POST'' then
        (Inr (Some \<lparr>status = 405, body = [(''message'', ''Invalid API Method''), (''type'', ''error'')]\<rparr>),
         st, [])
      else
        (case testURI env 0 (body_uri req) of
           Inl e \<Rightarrow> (Inl e, st, [])
         | Inr None \<Rightarrow>
             (Inr (Some \<lparr>status = 400, body = [(''message'', ''failed to verify URI''), (''type'', ''error'')]\<rparr>),
              st, [])
         | Inr (Some first_answer) \<Rightarrow>
             (case testURI env 1 (body_uri req) of
                Inl e \<Rightarrow> (Inl e, st, [])
              | Inr cachedata_v \<Rightarrow>
                  (case add_try env req cachedata_v st of
                     (Inr resp, st1, evs) \<Rightarrow> (Inr (Some resp), st1, evs)
                   | (Inl err, st1, evs) \<Rightarrow> (Inr (add_catch err), st1, evs)))))"

section \<open>Concrete inputs\<close>

text \<open>
  A small installation used to run the handlers: the working directory is \<^verbatim>\<open>/app\<close>,
  the only thumbnail on disk is \<^verbatim>\<open>/app/public/img/a.png\<close>, the host
  \<^verbatim>\<open>a.example\<close> answers the probe and every other host is unreachable, and nothing
  fails in the database or in the invalidation calls.
\<close>

definition join_paths :: "string list \<Rightarrow> string" where
  "join_paths ps = foldr (\<lambda>p acc. if acc = [] then p else p @ ''/'' @ acc) ps []"

definition row_ex :: instances_row where
  "row_ex = \<lparr>inst_id = 0, inst_name = None, inst_type = ''general'', nsfwflag = ''allowed'',
             uri = [], api_mode = ''mastodon'', api_key = ''key'', verified = False,
             failed_checks = 0, banned = False, ban_reason = None\<rparr>"

definition data_ex :: instanceData_row where
  "data_ex = \<lparr>instance_id = 0, title = None, description = None, thumbnail = None,
              user_count = None, status_count = None, registrations = None,
              approval_required = None, cache = ''stale''\<rparr>"

definition info_ex :: fetched where
  "info_ex = \<lparr>f_title = ''A'', f_description = ''about A'', f_thumbnail = Some ''/img/a.png'',
              f_user_count = 10, f_status_count = 20, f_registrations = True,
              f_approval_required = False\<rparr>"

definition env_ex :: env where
  "env_ex = \<lparr>process_cwd = Inr ''/app'', path_resolve = join_paths,
             existsSync = (\<lambda>p. p = ''/app/public/img/a.png''),
             checkAvailable = (\<lambda>u m. if u = ''a.example'' then Inr (Some info_ex) else Inr None),
             testURI = (\<lambda>n u. Inr (Some \<lparr>cd_title = Some ''New'', cd_contact_username = Some ''admin''\<rparr>)),
             storage_fault = (\<lambda>op. None),
             revalidateTag = (\<lambda>t. None), revalidatePath = (\<lambda>p. None),
             fetch_post = (\<lambda>u. Inr 200), node_env = Some ''production'',
             json_stringify = (\<lambda>c. case c of None \<Rightarrow> ''false'' | Some d \<Rightarrow> ''{}''),
             instances_defaults = (\<lambda>st. row_ex\<lparr>inst_id := length (instances st) + 1\<rparr>),
             instanceData_defaults = (\<lambda>st. data_ex)\<rparr>"

definition req_ex :: request where
  "req_ex = \<lparr>host_header = Some ''fedi.example''\<rparr>"

definition mk_row :: "nat \<Rightarrow> string \<Rightarrow> int \<Rightarrow> bool \<Rightarrow> instances_row" where
  "mk_row k u n b = row_ex\<lparr>inst_id := k, uri := u, failed_checks := n, banned := b\<rparr>"

definition mk_data :: "nat \<Rightarrow> instanceData_row" where
  "mk_data k = data_ex\<lparr>instance_id := k\<rparr>"

text \<open>
  Three rows that are not banned (the second has never failed, the third has failed four
  times in a row) and a banned one.
\<close>

definition st_ex :: store where
  "st_ex = \<lparr>instances = [mk_row 1 ''a.example'' 3 False, mk_row 2 ''b.example'' 0 False,
                          mk_row 3 ''c.example'' 4 False, mk_row 4 ''d.example'' 5 True],
            instanceData = [mk_data 1, mk_data 2, mk_data 3, mk_data 4]\<rparr>"

section \<open>Notions used in the statements\<close>

text \<open>The probe call made for a row.\<close>

definition probe_of :: "instances_row \<Rightarrow> event" where
  "probe_of r = Probe (inst_id r) (uri r) (api_mode r)"

text \<open>\<open>n\<close> sweeps in a row, each on the store the previous one left.\<close>

fun sweeps :: "nat \<Rightarrow> env \<Rightarrow> request \<Rightarrow> store \<Rightarrow> store" where
  "sweeps 0 env request st = st"
| "sweeps (Suc n) env request st = sweeps n env request (fst (snd (GET env request st)))"

text \<open>
  A row and its later version: the id is the same, and if the row was banned the later
  version is banned.
\<close>

definition kept :: "instances_row \<Rightarrow> instances_row \<Rightarrow> bool" where
  "kept r r' \<longleftrightarrow> inst_id r' = inst_id r \<and> (banned r \<longrightarrow> banned r')"

text \<open>
  From \<open>st\<close> to \<open>st'\<close> every row keeps its place and its id, and a row that was banned
  is still banned; \<open>st'\<close> may have further rows after them.
\<close>

definition never_unbans :: "store \<Rightarrow> store \<Rightarrow> bool" where
  "never_unbans st st' \<longleftrightarrow>
     length (instances st) \<le> length (instances st') \<and>
     (\<forall>i < length (instances st). kept (instances st ! i) (instances st' ! i))"

text \<open>A store with the single unreachable host, which has not failed yet.\<close>

definition st_new :: store where
  "st_new = \<lparr>instances = [mk_row 2 ''b.example'' 0 False], instanceData = [mk_data 2]\<rparr>"

definition areq_ex :: add_request where
  "areq_ex = \<lparr>req_method = ''POST'', body_uri = ''n.example'', body_type = ''general'',
              body_nsfwflag = ''allowed''\<rparr>"



text \<open>
  The registration request for a new host, and the row and the store that the example
  produces for it.
\<close>

definition row_added :: instances_row where
  "row_added = row_ex\<lparr>inst_id := 5, inst_name := Some ''New'', uri := ''n.example''\<rparr>"

definition st_added :: store where
  "st_added = \<lparr>instances = instances st_ex @ [row_added],
               instanceData = instanceData st_ex @ [data_ex\<lparr>instance_id := 5, cache := ''{}''\<rparr>]\<rparr>"

text \<open>
  Further variants: the update by \<^verbatim>\<open>uri\<close> that follows the creation of the row of
  \<^verbatim>\<open>n.example\<close> is rejected; and the host \<^verbatim>\<open>c.example\<close> instead of
  \<^verbatim>\<open>a.example\<close> answers the probe while the write for \<^verbatim>\<open>b.example\<close> fails with
  an error of another class.
\<close>

definition env_update_fault :: env where
  "env_update_fault = env_ex\<lparr>storage_fault :=
     (\<lambda>op. if op = UpdateInstancesByUri ''n.example''
           then Some (PrismaClientKnownRequestError ''P2024'' ''Timed out fetching a new connection from the connection pool.'')
           else None)\<rparr>"


section \<open>Properties of the string helpers\<close>

lemma startsWith_iff: "startsWith s t \<longleftrightarrow> (\<exists>r. s = t @ r)"
  by (induction s t rule: startsWith.induct) auto

lemma includes_iff: "includes_str s t \<longleftrightarrow> (\<exists>a b. s = a @ t @ b)"
proof (induction s)
  case Nil
  then show ?case by auto
next
  case (Cons x xs)
  show ?case
  proof
    assume "includes_str (x # xs) t"
    then consider "startsWith (x # xs) t" | "includes_str xs t" by auto
    then show "\<exists>a b. x # xs = a @ t @ b"
    proof cases
      case 1
      then obtain r where "x # xs = t @ r" by (auto simp: startsWith_iff)
      then have "x # xs = [] @ t @ r" by simp
      then show ?thesis by blast
    next
      case 2
      then obtain a b where "xs = a @ t @ b" using Cons.IH by blast
      then have "x # xs = (x # a) @ t @ b" by simp
      then show ?thesis by blast
    qed
  next
    assume "\<exists>a b. x # xs = a @ t @ b"
    then obtain a b where ab: "x # xs = a @ t @ b" by blast
    show "includes_str (x # xs) t"
    proof (cases a)
      case Nil
      with ab have "startsWith (x # xs) t" by (auto simp: startsWith_iff)
      then show ?thesis by simp
    next
      case (Cons y ys)
      with ab have "xs = ys @ t @ b" by simp
      then have "includes_str xs t" using Cons.IH by blast
      then show ?thesis by simp
    qed
  qed
qed

lemma placeholder_no_marker: "\<not> includes_str placeholder ''/img/img/''"
  by (simp add: placeholder_def)

lemma placeholder_local: "startsWith placeholder ''/img/''"
  by (simp add: placeholder_def)

lemma validate_placeholder: "validateThumbnailPath fs (Some placeholder) = placeholder"
proof -
  have ne: "placeholder \<noteq> []" by (simp add: placeholder_def)
  show ?thesis
    unfolding validateThumbnailPath_def
    using ne placeholder_no_marker placeholder_local
    by (simp split: sum.splits bool.splits)
qed

section \<open>The thumbnail path helper: rules and idempotence\<close>

lemma local_file_exists_img:
  "local_file_exists fs (''/img/'' @ r) =
     (case process_cwd fs of
        Inl e \<Rightarrow> Inl e
      | Inr cwd \<Rightarrow> Inr (existsSync fs (path_resolve fs [cwd, ''public'', ''img/'' @ r])))"
  by (simp add: local_file_exists_def split: sum.splits)

text \<open>
  Claim C4. \<^verbatim>\<open>validateThumbnailPath\<close> applies its rules in order: an absent or
  empty path gives the placeholder; a path that contains \<^verbatim>\<open>/img/img/\<close> gives the
  placeholder; a local path (one that starts with \<^verbatim>\<open>/img/\<close>) is kept when the file
  \<^verbatim>\<open>public/img/...\<close> under the working directory exists and is replaced by the
  placeholder otherwise; every other path is kept.
\<close>

theorem validateThumbnailPath_rules:
  "(p = None \<or> p = Some [] \<longrightarrow> validateThumbnailPath fs p = placeholder) \<and>
   (\<forall>a b. p = Some (a @ ''/img/img/'' @ b) \<longrightarrow> validateThumbnailPath fs p = placeholder) \<and>
   (\<forall>r. p = Some (''/img/'' @ r) \<and> (\<nexists>a b. ''/img/'' @ r = a @ ''/img/img/'' @ b) \<longrightarrow>
        validateThumbnailPath fs p =
          (if \<exists>cwd. process_cwd fs = Inr cwd \<and>
                     existsSync fs (path_resolve fs [cwd, ''public'', ''img/'' @ r])
           then ''/img/'' @ r else placeholder)) \<and>
   (\<forall>s. p = Some s \<and> s \<noteq> [] \<and> (\<nexists>a b. s = a @ ''/img/img/'' @ b) \<and> (\<nexists>r. s = ''/img/'' @ r) \<longrightarrow>
        validateThumbnailPath fs p = s)"
proof (intro conjI allI impI)
  assume "p = None \<or> p = Some []"
  then show "validateThumbnailPath fs p = placeholder"
    by (auto simp: validateThumbnailPath_def)
next
  fix a b assume "p = Some (a @ ''/img/img/'' @ b)"
  moreover have "includes_str (a @ ''/img/img/'' @ b) ''/img/img/''"
    unfolding includes_iff by blast
  ultimately show "validateThumbnailPath fs p = placeholder"
    by (simp add: validateThumbnailPath_def)
next
  fix r
  assume h: "p = Some (''/img/'' @ r) \<and> (\<nexists>a b. ''/img/'' @ r = a @ ''/img/img/'' @ b)"
  then have ni: "\<not> includes_str (''/img/'' @ r) ''/img/img/''"
    unfolding includes_iff by blast
  have sw: "startsWith (''/img/'' @ r) ''/img/''"
    unfolding startsWith_iff by blast
  have ne: "''/img/'' @ r \<noteq> []" by simp
  show "validateThumbnailPath fs p =
          (if \<exists>cwd. process_cwd fs = Inr cwd \<and>
                     existsSync fs (path_resolve fs [cwd, ''public'', ''img/'' @ r])
           then ''/img/'' @ r else placeholder)"
    using h ni sw ne
    by (cases "process_cwd fs")
       (simp_all add: validateThumbnailPath_def local_file_exists_img del: append.simps startsWith.simps includes_str.simps)
next
  fix s
  assume h: "p = Some s \<and> s \<noteq> [] \<and> (\<nexists>a b. s = a @ ''/img/img/'' @ b) \<and> (\<nexists>r. s = ''/img/'' @ r)"
  then have "\<not> includes_str s ''/img/img/''" "\<not> startsWith s ''/img/''"
    unfolding includes_iff startsWith_iff by blast+
  with h show "validateThumbnailPath fs p = s"
    by (simp add: validateThumbnailPath_def)
qed

text \<open>
  Claim C5. With the file system held fixed, validating a validated path changes nothing:
  the placeholder is itself a local path without the marker, and both outcomes of the
  existence test on it give the placeholder back.
\<close>

theorem validateThumbnailPath_idempotent:
  "validateThumbnailPath fs (Some (validateThumbnailPath fs x)) = validateThumbnailPath fs x"
proof (cases x)
  case None
  have "validateThumbnailPath fs None = placeholder"
    by (simp add: validateThumbnailPath_def)
  with None show ?thesis
    by (simp add: validate_placeholder)
next
  case (Some p)
  have "validateThumbnailPath fs (Some p) = p \<or> validateThumbnailPath fs (Some p) = placeholder"
    by (simp add: validateThumbnailPath_def split: sum.splits bool.splits)
  then consider (keep) "validateThumbnailPath fs (Some p) = p"
    | (repl) "validateThumbnailPath fs (Some p) = placeholder"
    by blast
  then show ?thesis
  proof cases
    case keep
    with Some show ?thesis by simp
  next
    case repl
    with Some show ?thesis by (simp add: validate_placeholder)
  qed
qed


lemma env_ex_fs:
  "process_cwd env_ex = Inr ''/app''"
  "existsSync env_ex q = (q = ''/app/public/img/a.png'')"
  "t \<noteq> [] \<Longrightarrow> path_resolve env_ex [c, ''public'', t] = c @ ''/public/'' @ t"
  by (simp_all add: env_ex_def join_paths_def)

text \<open>
  The four rules at the paths \<^verbatim>\<open>/img/img/foo.png\<close>, \<^verbatim>\<open>/img/foo.png\<close>
  (not on disk), \<^verbatim>\<open>/img/a.png\<close> (on disk) and a remote address.
\<close>

theorem validateThumbnailPath_rules_witness:
  "validateThumbnailPath env_ex None = placeholder \<and>
   validateThumbnailPath env_ex (Some ''/img/img/foo.png'') = placeholder \<and>
   validateThumbnailPath env_ex (Some ''/img/foo.png'') = placeholder \<and>
   validateThumbnailPath env_ex (Some ''/img/a.png'') = ''/img/a.png'' \<and>
   validateThumbnailPath env_ex (Some ''https://example.org/x.png'') = ''https://example.org/x.png''"
proof -
  have nm: "\<nexists>a b. s = a @ ''/img/img/'' @ b" if "\<not> includes_str s ''/img/img/''" for s
    using that includes_iff [of s "''/img/img/''"] by blast
  have nl: "\<nexists>r. s = ''/img/'' @ r" if "\<not> startsWith s ''/img/''" for s
    using that startsWith_iff [of s "''/img/''"] by blast
  have r1: "validateThumbnailPath env_ex None = placeholder"
    using validateThumbnailPath_rules [of None env_ex, THEN conjunct1] by simp
  have r2: "validateThumbnailPath env_ex (Some ''/img/img/foo.png'') = placeholder"
    using validateThumbnailPath_rules [of "Some ''/img/img/foo.png''" env_ex,
        THEN conjunct2, THEN conjunct1, rule_format, of "[]" "''foo.png''"]
    by simp
  have m3: "\<nexists>a b. ''/img/'' @ ''foo.png'' = a @ ''/img/img/'' @ b"
    by (rule nm) simp
  have r3: "validateThumbnailPath env_ex (Some ''/img/foo.png'') = placeholder"
    using validateThumbnailPath_rules [of "Some ''/img/foo.png''" env_ex,
        THEN conjunct2, THEN conjunct2, THEN conjunct1, rule_format, of "''foo.png''"] m3
    by (simp add: env_ex_fs)
  have m4: "\<nexists>a b. ''/img/'' @ ''a.png'' = a @ ''/img/img/'' @ b"
    by (rule nm) simp
  have r4: "validateThumbnailPath env_ex (Some ''/img/a.png'') = ''/img/a.png''"
    using validateThumbnailPath_rules [of "Some ''/img/a.png''" env_ex,
        THEN conjunct2, THEN conjunct2, THEN conjunct1, rule_format, of "''a.png''"] m4
    by (simp add: env_ex_fs)
  have m5: "\<nexists>a b. ''https://example.org/x.png'' = a @ ''/img/img/'' @ b"
    by (rule nm) simp
  have l5: "\<nexists>r. ''https://example.org/x.png'' = ''/img/'' @ r"
    by (rule nl) simp
  have r5: "validateThumbnailPath env_ex (Some ''https://example.org/x.png'') = ''https://example.org/x.png''"
    using validateThumbnailPath_rules [of "Some ''https://example.org/x.png''" env_ex,
        THEN conjunct2, THEN conjunct2, THEN conjunct2, rule_format,
        of "''https://example.org/x.png''"] m5 l5
    by blast
  from r1 r2 r3 r4 r5 show ?thesis by blast
qed

section \<open>Rows and updates\<close>

lemma update_first_None: "update_first P f xs = None \<longleftrightarrow> (\<forall>x\<in>set xs. \<not> P x)"
  by (induction xs) auto

lemma update_first_at:
  "\<forall>y\<in>set pre. \<not> P y \<Longrightarrow> P x \<Longrightarrow> update_first P f (pre @ x # post) = Some (pre @ f x # post)"
  by (induction pre) auto

lemma update_first_split:
  "update_first P f xs = Some ys \<Longrightarrow>
     \<exists>pre x post. xs = pre @ x # post \<and> (\<forall>y\<in>set pre. \<not> P y) \<and> P x \<and> ys = pre @ f x # post"
proof (induction xs arbitrary: ys)
  case Nil
  then show ?case by simp
next
  case (Cons a xs)
  show ?case
  proof (cases "P a")
    case True
    with Cons.prems have "ys = f a # xs" by simp
    with True have "a # xs = [] @ a # xs \<and> (\<forall>y\<in>set []. \<not> P y) \<and> P a \<and> ys = [] @ f a # xs"
      by simp
    then show ?thesis by blast
  next
    case False
    with Cons.prems obtain zs where zs: "update_first P f xs = Some zs" "ys = a # zs"
      by auto
    from Cons.IH [OF zs(1)] obtain pre x post where
      "xs = pre @ x # post" "\<forall>y\<in>set pre. \<not> P y" "P x" "zs = pre @ f x # post"
      by blast
    with False zs(2) have
      "a # xs = (a # pre) @ x # post \<and> (\<forall>y\<in>set (a # pre). \<not> P y) \<and> P x \<and> ys = (a # pre) @ f x # post"
      by simp
    then show ?thesis by blast
  qed
qed

lemma update_first_map:
  "update_first P f xs = Some ys \<Longrightarrow> (\<And>x. g (f x) = g x) \<Longrightarrow> map g ys = map g xs"
  by (induction xs arbitrary: ys) (auto split: if_splits)

section \<open>Running the concrete inputs\<close>

lemmas run_defs =
  GET_def findMany_not_banned_def check_instance_def on_available_def on_unavailable_def
  prisma_instanceData_update_def prisma_instances_update_def triggerRevalidation_def
  revalidation_body_def catch_and_log_def validateThumbnailPath_def local_file_exists_def
  placeholder_def ban_text_def

lemmas ex_defs =
  env_ex_def st_ex_def req_ex_def mk_row_def mk_data_def row_ex_def data_ex_def info_ex_def
  join_paths_def

lemma GET_ex:
  "GET env_ex req_ex st_ex =
     (Inr \<lparr>status = 200, body = [(''message'', ''successfully updated instances'')]\<rparr>,
      \<lparr>instances = [mk_row 1 ''a.example'' 0 False, mk_row 2 ''b.example'' 1 False,
                    mk_row 3 ''c.example'' 5 False, mk_row 4 ''d.example'' 5 True],
       instanceData = [\<lparr>instance_id = 1, title = Some ''A'', description = Some ''about A'',
                         thumbnail = Some ''/img/a.png'', user_count = Some 10,
                         status_count = Some 20, registrations = Some True,
                         approval_required = Some False, cache = ''stale''\<rparr>,
                       mk_data 2, mk_data 3, mk_data 4]\<rparr>,
      [Probe 1 ''a.example'' ''mastodon'', Probe 2 ''b.example'' ''mastodon'',
       Probe 3 ''c.example'' ''mastodon'', RevalidateTag ''instances'', RevalidatePath ''/'',
       FetchPost ''https://fedi.example/api/revalidate''])"
  by (simp add: run_defs ex_defs)


section \<open>A probe that succeeds\<close>

lemma prisma_instances_update_ok:
  assumes "storage_fault env (UpdateInstances k) = None"
    and "instances st = pre @ r # post" and "inst_id r = k" and "\<forall>x\<in>set pre. inst_id x \<noteq> k"
  shows "prisma_instances_update env k f st = Inr (st\<lparr>instances := pre @ f r # post\<rparr>)"
  using assms update_first_at [of pre "\<lambda>r. inst_id r = k" r f post]
  by (simp add: prisma_instances_update_def)

lemma prisma_instanceData_update_ok:
  assumes "storage_fault env (UpdateInstanceData k) = None"
    and "instanceData st = pre @ d # post" and "instance_id d = k"
    and "\<forall>x\<in>set pre. instance_id x \<noteq> k"
  shows "prisma_instanceData_update env k f st = Inr (st\<lparr>instanceData := pre @ f d # post\<rparr>)"
  using assms update_first_at [of pre "\<lambda>r. instance_id r = k" d f post]
  by (simp add: prisma_instanceData_update_def)

lemma prisma_instanceData_update_exists:
  assumes "storage_fault env (UpdateInstanceData k) = None"
    and "\<exists>d\<in>set (instanceData st). instance_id d = k"
  shows "\<exists>rows. prisma_instanceData_update env k f st = Inr (st\<lparr>instanceData := rows\<rparr>)"
proof -
  from assms(2) have "update_first (\<lambda>r. instance_id r = k) f (instanceData st) \<noteq> None"
    by (simp add: update_first_None)
  then obtain rows where "update_first (\<lambda>r. instance_id r = k) f (instanceData st) = Some rows"
    by blast
  with assms(1) have "prisma_instanceData_update env k f st = Inr (st\<lparr>instanceData := rows\<rparr>)"
    by (simp add: prisma_instanceData_update_def)
  then show ?thesis by blast
qed

text \<open>
  Claim C7. When the probe of a row succeeds and the two writes for it go through, the
  row's \<^verbatim>\<open>failed_checks\<close> becomes 0 whatever it was, and nothing else in the
  \<^verbatim>\<open>instances\<close> table changes: \<^verbatim>\<open>banned\<close> and \<^verbatim>\<open>ban_reason\<close> of the row
  and all other rows are as before.
\<close>

theorem probe_success_resets_counter:
  assumes probe: "checkAvailable env (uri inst) (api_mode inst) = Inr (Some info)"
    and no_fault: "storage_fault env (UpdateInstanceData (inst_id inst)) = None"
                  "storage_fault env (UpdateInstances (inst_id inst)) = None"
    and data: "\<exists>d\<in>set (instanceData st). instance_id d = inst_id inst"
    and rows: "instances st = pre @ r # post" "inst_id r = inst_id inst"
              "\<forall>x\<in>set pre. inst_id x \<noteq> inst_id inst"
  shows "\<exists>st' r'. check_instance env inst st =
                     (Inr (), st', [Probe (inst_id inst) (uri inst) (api_mode inst)]) \<and>
                  instances st' = pre @ r' # post \<and> r' = r\<lparr>failed_checks := 0\<rparr> \<and>
                  failed_checks r' = 0 \<and> banned r' = banned r \<and> ban_reason r' = ban_reason r"
proof -
  define upd where "upd =
    (if f_thumbnail info = None then info\<lparr>f_thumbnail := Some ''/img/fedi_placeholder.png''\<rparr>
     else info)"
  define g where "g = (\<lambda>r::instanceData_row.
      r\<lparr>title := Some (f_title upd), description := Some (f_description upd),
        thumbnail := Some (validateThumbnailPath env (f_thumbnail upd)),
        user_count := Some (f_user_count upd), status_count := Some (f_status_count upd),
        registrations := Some (f_registrations upd),
        approval_required := Some (f_approval_required upd)\<rparr>)"
  obtain drows where d1:
    "prisma_instanceData_update env (inst_id inst) g st = Inr (st\<lparr>instanceData := drows\<rparr>)"
    using prisma_instanceData_update_exists [OF no_fault(1) data] by blast
  have "instances (st\<lparr>instanceData := drows\<rparr>) = pre @ r # post"
    using rows(1) by simp
  then have d2: "prisma_instances_update env (inst_id inst) (\<lambda>r. r\<lparr>failed_checks := 0\<rparr>)
                   (st\<lparr>instanceData := drows\<rparr>) =
                 Inr (st\<lparr>instanceData := drows, instances := pre @ r\<lparr>failed_checks := 0\<rparr> # post\<rparr>)"
    using prisma_instances_update_ok [OF no_fault(2) _ rows(2) rows(3)] by simp
  have "on_available env inst upd st =
          (Inr (), st\<lparr>instanceData := drows, instances := pre @ r\<lparr>failed_checks := 0\<rparr> # post\<rparr>)"
    using d1 d2 by (simp add: on_available_def g_def)
  then have "check_instance env inst st =
          (Inr (), st\<lparr>instanceData := drows, instances := pre @ r\<lparr>failed_checks := 0\<rparr> # post\<rparr>,
           [Probe (inst_id inst) (uri inst) (api_mode inst)])"
    using probe by (simp add: check_instance_def upd_def)
  then show ?thesis by simp
qed

text \<open>The first row of the example, which had failed three times.\<close>

theorem probe_success_resets_counter_witness:
  "\<exists>st' r'. check_instance env_ex (mk_row 1 ''a.example'' 3 False) st_ex =
               (Inr (), st', [Probe 1 ''a.example'' ''mastodon'']) \<and>
            instances st' = r' # [mk_row 2 ''b.example'' 0 False, mk_row 3 ''c.example'' 4 False,
                                   mk_row 4 ''d.example'' 5 True] \<and>
            r' = mk_row 1 ''a.example'' 0 False \<and>
            failed_checks r' = 0 \<and> banned r' = False \<and> ban_reason r' = None"
  using probe_success_resets_counter [of env_ex "mk_row 1 ''a.example'' 3 False" info_ex st_ex
      "[]" "mk_row 1 ''a.example'' 3 False"
      "[mk_row 2 ''b.example'' 0 False, mk_row 3 ''c.example'' 4 False, mk_row 4 ''d.example'' 5 True]"]
  by (simp add: ex_defs)


lemma prisma_instances_update_frame:
  "prisma_instances_update env k f st = Inr st' \<Longrightarrow> instanceData st' = instanceData st"
  by (auto simp: prisma_instances_update_def split: option.splits)

lemma on_available_data:
  assumes "storage_fault env (UpdateInstanceData (inst_id inst)) = None"
    and "instanceData st = pre @ d # post" and "instance_id d = inst_id inst"
    and "\<forall>x\<in>set pre. instance_id x \<noteq> inst_id inst"
  shows "instanceData (snd (on_available env inst upd st)) =
           pre @ d\<lparr>title := Some (f_title upd), description := Some (f_description upd),
                    thumbnail := Some (validateThumbnailPath env (f_thumbnail upd)),
                    user_count := Some (f_user_count upd),
                    status_count := Some (f_status_count upd),
                    registrations := Some (f_registrations upd),
                    approval_required := Some (f_approval_required upd)\<rparr> # post"
  unfolding on_available_def Let_def prisma_instanceData_update_ok [OF assms]
  by (auto split: sum.splits dest: prisma_instances_update_frame)

text \<open>
  Claim C8, as the code has it. When the probe of a row succeeds and the write to
  \<^verbatim>\<open>instanceData\<close> goes through, the seven columns \<^verbatim>\<open>title\<close>,
  \<^verbatim>\<open>description\<close>, \<^verbatim>\<open>thumbnail\<close> (validated), \<^verbatim>\<open>user_count\<close>,
  \<^verbatim>\<open>status_count\<close>, \<^verbatim>\<open>registrations\<close> and \<^verbatim>\<open>approval_required\<close> take the
  probe's values; the \<^verbatim>\<open>cache\<close> column keeps the text it had.
\<close>

theorem probe_success_overwrites_fields:
  assumes probe: "checkAvailable env (uri inst) (api_mode inst) = Inr (Some info)"
    and no_fault: "storage_fault env (UpdateInstanceData (inst_id inst)) = None"
    and rows: "instanceData st = pre @ d # post" "instance_id d = inst_id inst"
              "\<forall>x\<in>set pre. instance_id x \<noteq> inst_id inst"
  shows "\<exists>d'. instanceData (fst (snd (check_instance env inst st))) = pre @ d' # post \<and>
              title d' = Some (f_title info) \<and>
              description d' = Some (f_description info) \<and>
              thumbnail d' = Some (validateThumbnailPath env
                               (Some (case f_thumbnail info of None \<Rightarrow> placeholder | Some t \<Rightarrow> t))) \<and>
              user_count d' = Some (f_user_count info) \<and>
              status_count d' = Some (f_status_count info) \<and>
              registrations d' = Some (f_registrations info) \<and>
              approval_required d' = Some (f_approval_required info) \<and>
              cache d' = cache d \<and> instance_id d' = instance_id d"
proof -
  define upd where "upd =
    (if f_thumbnail info = None then info\<lparr>f_thumbnail := Some ''/img/fedi_placeholder.png''\<rparr>
     else info)"
  have same: "f_title upd = f_title info" "f_description upd = f_description info"
    "f_user_count upd = f_user_count info" "f_status_count upd = f_status_count info"
    "f_registrations upd = f_registrations info"
    "f_approval_required upd = f_approval_required info"
    by (simp_all add: upd_def)
  have thumb: "f_thumbnail upd = Some (case f_thumbnail info of None \<Rightarrow> placeholder | Some t \<Rightarrow> t)"
    by (simp add: upd_def placeholder_def split: option.splits)
  have "fst (snd (check_instance env inst st)) = snd (on_available env inst upd st)"
    using probe by (simp add: check_instance_def upd_def split: prod.splits)
  then show ?thesis
    using on_available_data [OF no_fault rows, of upd] by (simp add: same thumb)
qed

text \<open>The metadata row of the first example row.\<close>

theorem probe_success_overwrites_fields_witness:
  "\<exists>d'. instanceData (fst (snd (check_instance env_ex (mk_row 1 ''a.example'' 3 False) st_ex))) =
           d' # [mk_data 2, mk_data 3, mk_data 4] \<and>
        title d' = Some ''A'' \<and> description d' = Some ''about A'' \<and>
        thumbnail d' = Some (validateThumbnailPath env_ex (Some ''/img/a.png'')) \<and>
        user_count d' = Some 10 \<and> status_count d' = Some 20 \<and>
        registrations d' = Some True \<and> approval_required d' = Some False \<and>
        cache d' = ''stale'' \<and> instance_id d' = 1"
  using probe_success_overwrites_fields [of env_ex "mk_row 1 ''a.example'' 3 False" info_ex st_ex
      "[]" "mk_data 1" "[mk_data 2, mk_data 3, mk_data 4]"]
  by (simp add: ex_defs)

text \<open>
  Claim C8 as stated fails: after a sweep in which the probe of \<^verbatim>\<open>a.example\<close>
  succeeded, its title is the probe's and its \<^verbatim>\<open>cache\<close> is still the text stored
  before the sweep.
\<close>

theorem sweep_keeps_cache_counterexample:
  "checkAvailable env_ex ''a.example'' ''mastodon'' = Inr (Some info_ex) \<and>
   cache (hd (instanceData st_ex)) = ''stale'' \<and>
   title (hd (instanceData (fst (snd (GET env_ex req_ex st_ex))))) = Some ''A'' \<and>
   cache (hd (instanceData (fst (snd (GET env_ex req_ex st_ex))))) = ''stale''"
  by (simp add: GET_ex) (simp add: ex_defs)

section \<open>The response of a sweep\<close>


lemma triggerRevalidation_returns: "fst (triggerRevalidation env request) = Inr ()"
  by (simp add: triggerRevalidation_def catch_and_log_def revalidation_body_def Let_def
      split: option.splits sum.splits)


section \<open>Consecutive failures\<close>


lemma GET_unreachable_step:
  "n < 5 \<Longrightarrow>
   fst (snd (GET env_ex req_ex \<lparr>instances = [mk_row 2 ''b.example'' n False], instanceData = ds\<rparr>)) =
     \<lparr>instances = [mk_row 2 ''b.example'' (n + 1) False], instanceData = ds\<rparr>"
  by (simp add: run_defs env_ex_def req_ex_def mk_row_def row_ex_def)

lemma GET_unreachable_ban:
  "fst (snd (GET env_ex req_ex \<lparr>instances = [mk_row 2 ''b.example'' 5 False], instanceData = ds\<rparr>)) =
     \<lparr>instances = [(mk_row 2 ''b.example'' 5 False)
                      \<lparr>banned := True, ban_reason := Some ''Instance failed 5 checks in a row''\<rparr>],
      instanceData = ds\<rparr>"
  by (simp add: run_defs env_ex_def req_ex_def mk_row_def row_ex_def)

text \<open>
  Claim C1 against the code. The host \<^verbatim>\<open>b.example\<close> is unreachable in every sweep.
  After four and after five sweeps in a row it is not banned and its counter is 4 and 5;
  the sixth sweep bans it, with the reason \<^verbatim>\<open>Instance failed 5 checks in a row\<close>,
  and leaves the counter at 5. The test is \<^verbatim>\<open>failed_checks >= 5\<close> on the value read
  before the increment.
\<close>

theorem fifth_failure_does_not_ban:
  "checkAvailable env_ex ''b.example'' ''mastodon'' = Inr None \<and>
   instances (sweeps 4 env_ex req_ex st_new) = [mk_row 2 ''b.example'' 4 False] \<and>
   instances (sweeps 5 env_ex req_ex st_new) = [mk_row 2 ''b.example'' 5 False] \<and>
   instances (sweeps 6 env_ex req_ex st_new) =
     [(mk_row 2 ''b.example'' 5 False)
        \<lparr>banned := True, ban_reason := Some ''Instance failed 5 checks in a row''\<rparr>]"
proof -
  have n4: "(4::nat) = Suc (Suc (Suc (Suc 0)))" and n5: "(5::nat) = Suc (Suc (Suc (Suc (Suc 0))))"
    and n6: "(6::nat) = Suc (Suc (Suc (Suc (Suc (Suc 0)))))"
    by simp_all
  have s4: "sweeps 4 env_ex req_ex st_new =
              \<lparr>instances = [mk_row 2 ''b.example'' 4 False], instanceData = [mk_data 2]\<rparr>"
    unfolding n4 by (simp add: st_new_def GET_unreachable_step)
  have s5: "sweeps 5 env_ex req_ex st_new =
              \<lparr>instances = [mk_row 2 ''b.example'' 5 False], instanceData = [mk_data 2]\<rparr>"
    unfolding n5 by (simp add: st_new_def GET_unreachable_step)
  have s6: "sweeps 6 env_ex req_ex st_new =
              \<lparr>instances = [(mk_row 2 ''b.example'' 5 False)
                 \<lparr>banned := True, ban_reason := Some ''Instance failed 5 checks in a row''\<rparr>],
               instanceData = [mk_data 2]\<rparr>"
    unfolding n6 by (simp add: st_new_def GET_unreachable_step GET_unreachable_ban)
  have p: "checkAvailable env_ex ''b.example'' ''mastodon'' = Inr None"
    by (simp add: env_ex_def)
  from p s4 s5 s6 show ?thesis by simp
qed


section \<open>The invalidation helper and the sweep\<close>

lemma check_instance_channels:
  "check_instance (env\<lparr>revalidateTag := t, revalidatePath := p, fetch_post := f\<rparr>) inst st =
   check_instance env inst st"
proof -
  let ?env' = "env\<lparr>revalidateTag := t, revalidatePath := p, fetch_post := f\<rparr>"
  have v: "validateThumbnailPath ?env' x = validateThumbnailPath env x" for x
    by (simp add: validateThumbnailPath_def local_file_exists_def
        split: option.splits sum.splits bool.splits)
  have d: "prisma_instanceData_update ?env' k g s = prisma_instanceData_update env k g s" for k g s
    by (simp add: prisma_instanceData_update_def)
  have i: "prisma_instances_update ?env' k h s = prisma_instances_update env k h s" for k h s
    by (simp add: prisma_instances_update_def)
  have a: "on_available ?env' inst u st = on_available env inst u st" for u
    unfolding on_available_def v d i ..
  have b: "on_unavailable ?env' inst st = on_unavailable env inst st"
    unfolding on_unavailable_def i ..
  show ?thesis
    unfolding check_instance_def a b by simp
qed

lemma sweep_loop_channels:
  "sweep_loop (env\<lparr>revalidateTag := t, revalidatePath := p, fetch_post := f\<rparr>) insts st =
   sweep_loop env insts st"
proof (induction insts arbitrary: st)
  case Nil
  show ?case by simp
next
  case (Cons inst rest)
  show ?case
    unfolding sweep_loop.simps check_instance_channels Cons.IH ..
qed

lemma GET_channels:
  "fst (GET (env\<lparr>revalidateTag := t, revalidatePath := p, fetch_post := f\<rparr>) request st) =
   fst (GET env request st)"
proof -
  let ?env' = "env\<lparr>revalidateTag := t, revalidatePath := p, fetch_post := f\<rparr>"
  obtain e1 where t1: "triggerRevalidation env request = (Inr (), e1)"
    using triggerRevalidation_returns [of env request]
    by (cases "triggerRevalidation env request") auto
  obtain e2 where t2: "triggerRevalidation ?env' request = (Inr (), e2)"
    using triggerRevalidation_returns [of ?env' request]
    by (cases "triggerRevalidation ?env' request") auto
  show ?thesis
    unfolding GET_def sweep_loop_channels t1 t2
    by (simp add: findMany_not_banned_def split: option.splits prod.splits)
qed

text \<open>
  Claim C3, as the code has it. \<^verbatim>\<open>triggerRevalidation\<close> never throws. The tag purge
  is always attempted; the path purge is attempted exactly when the tag purge did not
  throw; the request to \<^verbatim>\<open>/api/revalidate\<close> is made exactly when neither purge threw.
  Whatever the three calls do, the response of the sweep is the same.
\<close>

theorem revalidation_channels_in_sequence:
  "fst (triggerRevalidation env request) = Inr () \<and>
   RevalidateTag ''instances'' \<in> set (snd (triggerRevalidation env request)) \<and>
   (RevalidatePath ''/'' \<in> set (snd (triggerRevalidation env request)) \<longleftrightarrow>
      revalidateTag env ''instances'' = None) \<and>
   ((\<exists>u. FetchPost u \<in> set (snd (triggerRevalidation env request))) \<longleftrightarrow>
      revalidateTag env ''instances'' = None \<and> revalidatePath env ''/'' = None) \<and>
   fst (GET (env\<lparr>revalidateTag := t, revalidatePath := p, fetch_post := f\<rparr>) request st) =
     fst (GET env request st)"
proof (intro conjI)
  show "fst (triggerRevalidation env request) = Inr ()"
    by (rule triggerRevalidation_returns)
  show "RevalidateTag ''instances'' \<in> set (snd (triggerRevalidation env request))"
    by (simp add: triggerRevalidation_def catch_and_log_def revalidation_body_def Let_def
        split: option.splits sum.splits)
  show "RevalidatePath ''/'' \<in> set (snd (triggerRevalidation env request)) \<longleftrightarrow>
          revalidateTag env ''instances'' = None"
    by (simp add: triggerRevalidation_def catch_and_log_def revalidation_body_def Let_def
        split: option.splits sum.splits)
  show "(\<exists>u. FetchPost u \<in> set (snd (triggerRevalidation env request))) \<longleftrightarrow>
          revalidateTag env ''instances'' = None \<and> revalidatePath env ''/'' = None"
    by (auto simp: triggerRevalidation_def catch_and_log_def revalidation_body_def Let_def
        split: option.splits sum.splits)
  show "fst (GET (env\<lparr>revalidateTag := t, revalidatePath := p, fetch_post := f\<rparr>) request st) =
          fst (GET env request st)"
    by (rule GET_channels)
qed

text \<open>All three calls are made in the example; making all of them fail leaves the response as it is.\<close>

theorem revalidation_channels_in_sequence_witness:
  "fst (triggerRevalidation env_ex req_ex) = Inr () \<and>
   RevalidateTag ''instances'' \<in> set (snd (triggerRevalidation env_ex req_ex)) \<and>
   RevalidatePath ''/'' \<in> set (snd (triggerRevalidation env_ex req_ex)) \<and>
   (\<exists>u. FetchPost u \<in> set (snd (triggerRevalidation env_ex req_ex))) \<and>
   fst (GET (env_ex\<lparr>revalidateTag := (\<lambda>t. Some (OtherError ''purge failed'')),
                    revalidatePath := (\<lambda>p. Some (OtherError ''purge failed'')),
                    fetch_post := (\<lambda>u. Inl (OtherError ''connection refused''))\<rparr>) req_ex st_ex) =
     fst (GET env_ex req_ex st_ex)"
  using revalidation_channels_in_sequence [where env = env_ex and request = req_ex
      and t = "\<lambda>t. Some (OtherError ''purge failed'')"
      and p = "\<lambda>p. Some (OtherError ''purge failed'')"
      and f = "\<lambda>u. Inl (OtherError ''connection refused'')" and st = st_ex]
  by (simp add: env_ex_def)

text \<open>
  Claim C3 as stated fails: when the tag purge throws, neither the path purge nor the
  request to \<^verbatim>\<open>/api/revalidate\<close> is attempted.
\<close>

theorem tag_purge_failure_skips_channels_counterexample:
  "triggerRevalidation (env_ex\<lparr>revalidateTag := (\<lambda>t. Some (OtherError ''purge failed''))\<rparr>) req_ex =
     (Inr (), [RevalidateTag ''instances''])"
  by (simp add: triggerRevalidation_def catch_and_log_def revalidation_body_def env_ex_def)

section \<open>What a sweep leaves in place\<close>

lemma update_first_all2:
  "update_first P f xs = Some ys \<Longrightarrow> (\<And>x. R x (f x)) \<Longrightarrow> (\<And>x. R x x) \<Longrightarrow> list_all2 R xs ys"
proof (induction xs arbitrary: ys)
  case Nil
  then show ?case by simp
next
  case (Cons a xs)
  show ?case
  proof (cases "P a")
    case True
    with Cons.prems(1) have "ys = f a # xs" by simp
    moreover have "list_all2 R xs xs"
      using Cons.prems(3) by (simp add: list_all2_same)
    ultimately show ?thesis using Cons.prems(2) by simp
  next
    case False
    with Cons.prems(1) obtain zs where zs: "update_first P f xs = Some zs" "ys = a # zs"
      by auto
    from Cons.IH [OF zs(1) Cons.prems(2) Cons.prems(3)] zs(2) Cons.prems(3)
    show ?thesis by simp
  qed
qed

lemma kept_refl: "kept r r"
  by (simp add: kept_def)

lemma kept_trans: "kept a b \<Longrightarrow> kept b c \<Longrightarrow> kept a c"
  by (simp add: kept_def)

lemma all2_kept_refl: "list_all2 kept xs xs"
  by (simp add: list_all2_same kept_refl)

lemma all2_kept_trans: "list_all2 kept xs ys \<Longrightarrow> list_all2 kept ys zs \<Longrightarrow> list_all2 kept xs zs"
  by (rule list_all2_trans [of kept kept kept]) (auto intro: kept_trans)

lemma prisma_instances_update_kept:
  assumes "prisma_instances_update env k f st = Inr st'" and "\<And>x. kept x (f x)"
  shows "list_all2 kept (instances st) (instances st') \<and> instanceData st' = instanceData st"
  using assms update_first_all2 [of "\<lambda>r. inst_id r = k" f "instances st" _ kept]
  by (auto simp: prisma_instances_update_def kept_refl split: option.splits)

lemma prisma_instanceData_update_kept:
  assumes "prisma_instanceData_update env k f st = Inr st'" and "\<And>x. instance_id (f x) = instance_id x"
  shows "instances st' = instances st \<and>
         map instance_id (instanceData st') = map instance_id (instanceData st)"
  using assms update_first_map [of "\<lambda>r. instance_id r = k" f "instanceData st" _ instance_id]
  by (auto simp: prisma_instanceData_update_def split: option.splits)

lemma on_unavailable_kept:
  assumes "on_unavailable env inst st = (res, st')"
  shows "list_all2 kept (instances st) (instances st') \<and> instanceData st' = instanceData st"
proof (cases "failed_checks inst \<ge> 5")
  case True
  show ?thesis
  proof (cases "prisma_instances_update env (inst_id inst)
                  (\<lambda>r. r\<lparr>banned := True, ban_reason := Some ban_text\<rparr>) st")
    case (Inl e)
    with True assms have "st' = st" by (simp add: on_unavailable_def)
    then show ?thesis by (simp add: all2_kept_refl)
  next
    case (Inr st1)
    with True assms have "st' = st1" by (simp add: on_unavailable_def)
    with prisma_instances_update_kept [OF Inr] show ?thesis by (simp add: kept_def)
  qed
next
  case False
  show ?thesis
  proof (cases "prisma_instances_update env (inst_id inst)
                  (\<lambda>r. r\<lparr>failed_checks := failed_checks inst + 1\<rparr>) st")
    case (Inl e)
    with False assms have "st' = st" by (simp add: on_unavailable_def)
    then show ?thesis by (simp add: all2_kept_refl)
  next
    case (Inr st1)
    with False assms have "st' = st1" by (simp add: on_unavailable_def)
    with prisma_instances_update_kept [OF Inr] show ?thesis by (simp add: kept_def)
  qed
qed

lemma on_available_kept:
  assumes "on_available env inst upd st = (res, st')"
  shows "list_all2 kept (instances st) (instances st') \<and>
         map instance_id (instanceData st') = map instance_id (instanceData st)"
proof -
  define g where "g = (\<lambda>r::instanceData_row.
      r\<lparr>title := Some (f_title upd), description := Some (f_description upd),
        thumbnail := Some (validateThumbnailPath env (f_thumbnail upd)),
        user_count := Some (f_user_count upd), status_count := Some (f_status_count upd),
        registrations := Some (f_registrations upd),
        approval_required := Some (f_approval_required upd)\<rparr>)"
  have gid: "instance_id (g x) = instance_id x" for x by (simp add: g_def)
  show ?thesis
  proof (cases "prisma_instanceData_update env (inst_id inst) g st")
    case (Inl e)
    with assms have "st' = st" by (simp add: on_available_def g_def)
    then show ?thesis by (simp add: all2_kept_refl)
  next
    case (Inr st1)
    note d = prisma_instanceData_update_kept [OF Inr gid]
    show ?thesis
    proof (cases "prisma_instances_update env (inst_id inst) (\<lambda>r. r\<lparr>failed_checks := 0\<rparr>) st1")
      case (Inl e)
      with Inr assms have "st' = st1" by (simp add: on_available_def g_def)
      with d show ?thesis by (simp add: all2_kept_refl)
    next
      case (Inr st2)
      with \<open>prisma_instanceData_update env (inst_id inst) g st = Inr st1\<close> assms
      have "st' = st2" by (simp add: on_available_def g_def)
      with prisma_instances_update_kept [OF Inr] d show ?thesis by (simp add: kept_def)
    qed
  qed
qed

lemma check_instance_kept:
  assumes "check_instance env inst st = (res, st', evs)"
  shows "list_all2 kept (instances st) (instances st') \<and>
         map instance_id (instanceData st') = map instance_id (instanceData st) \<and>
         evs = [probe_of inst]"
proof (cases "checkAvailable env (uri inst) (api_mode inst)")
  case (Inl e)
  with assms show ?thesis
    by (auto simp: check_instance_def probe_of_def all2_kept_refl)
next
  case (Inr answer)
  show ?thesis
  proof (cases answer)
    case None
    obtain r1 s1 where u: "on_unavailable env inst st = (r1, s1)"
      by (cases "on_unavailable env inst st") auto
    with None Inr assms have "st' = s1" "evs = [probe_of inst]"
      by (auto simp: check_instance_def probe_of_def)
    with on_unavailable_kept [OF u] show ?thesis by simp
  next
    case (Some info)
    define upd where "upd =
      (if f_thumbnail info = None then info\<lparr>f_thumbnail := Some ''/img/fedi_placeholder.png''\<rparr>
       else info)"
    obtain r1 s1 where a: "on_available env inst upd st = (r1, s1)"
      by (cases "on_available env inst upd st") auto
    with Some Inr assms have "st' = s1" "evs = [probe_of inst]"
      by (auto simp: check_instance_def probe_of_def upd_def)
    with on_available_kept [OF a] show ?thesis by simp
  qed
qed


lemma sweep_loop_kept:
  "sweep_loop env insts st = (r, st', evs) \<Longrightarrow>
     list_all2 kept (instances st) (instances st') \<and>
     map instance_id (instanceData st') = map instance_id (instanceData st) \<and>
     set evs \<subseteq> probe_of ` set insts"
proof (induction insts arbitrary: st r st' evs)
  case Nil
  then show ?case by (simp add: all2_kept_refl)
next
  case (Cons inst rest)
  obtain res st1 ev1 where c: "check_instance env inst st = (res, st1, ev1)"
    by (cases "check_instance env inst st") auto
  note k1 = check_instance_kept [OF c]
  obtain r2 st2 ev2 where l: "sweep_loop env rest st1 = (r2, st2, ev2)"
    by (cases "sweep_loop env rest st1") auto
  note k2 = Cons.IH [OF l]
  have go_on: ?case if "st' = st2" "evs = ev1 @ ev2"
    using that k1 k2 all2_kept_trans [of "instances st" "instances st1" "instances st2"]
    by auto
  have stop: ?case if "st' = st1" "evs = ev1"
    using that k1 by auto
  show ?case
  proof (cases res)
    case (Inr u)
    with c l Cons.prems have "st' = st2" "evs = ev1 @ ev2" by auto
    then show ?thesis by (rule go_on)
  next
    case (Inl e)
    show ?thesis
    proof (cases e)
      case (PrismaClientKnownRequestError code m)
      with Inl c Cons.prems have "st' = st1" "evs = ev1" by auto
      then show ?thesis by (rule stop)
    next
      case (PrismaClientValidationError m)
      with Inl c Cons.prems have "st' = st1" "evs = ev1" by auto
      then show ?thesis by (rule stop)
    next
      case (OtherError m)
      with Inl c l Cons.prems have "st' = st2" "evs = ev1 @ ev2" by auto
      then show ?thesis by (rule go_on)
    qed
  qed
qed

lemma triggerRevalidation_no_probe:
  "Probe k u m \<notin> set (snd (triggerRevalidation env request))"
  by (simp add: triggerRevalidation_def catch_and_log_def revalidation_body_def Let_def
      split: option.splits sum.splits)

lemma GET_kept:
  "list_all2 kept (instances st) (instances (fst (snd (GET env request st)))) \<and>
   (\<forall>k u m. Probe k u m \<in> set (snd (snd (GET env request st))) \<longrightarrow>
      Probe k u m \<in> probe_of ` {r \<in> set (instances st). \<not> banned r})"
proof (cases "storage_fault env FindManyInstances")
  case (Some e)
  then have "GET env request st = (Inl e, st, [])"
    by (simp add: GET_def findMany_not_banned_def)
  then show ?thesis by (simp add: all2_kept_refl)
next
  case None
  define allInstances where "allInstances = filter (\<lambda>r. banned r = False) (instances st)"
  obtain r st1 evs where l: "sweep_loop env allInstances st = (r, st1, evs)"
    by (cases "sweep_loop env allInstances st") auto
  note k = sweep_loop_kept [OF l]
  obtain evs2 where t: "triggerRevalidation env request = (Inr (), evs2)"
    using triggerRevalidation_returns [of env request]
    by (cases "triggerRevalidation env request") auto
  have np: "Probe k u m \<notin> set evs2" for k u m
    using triggerRevalidation_no_probe [of k u m env request] t by simp
  have "fst (snd (GET env request st)) = st1 \<and>
        (snd (snd (GET env request st)) = evs \<or> snd (snd (GET env request st)) = evs @ evs2)"
    using None l t
    by (cases r) (simp_all add: GET_def findMany_not_banned_def allInstances_def)
  moreover have "set evs \<subseteq> probe_of ` {r \<in> set (instances st). \<not> banned r}"
    using k by (auto simp: allInstances_def)
  ultimately show ?thesis
    using k np by auto
qed


section \<open>Registration\<close>

lemma prisma_instances_create_result:
  assumes "prisma_instances_create env n t f u v c st = Inr (row, st1)"
  shows "instances st1 = instances st @ [row] \<and> verified row = v \<and> uri row = u \<and>
         inst_type row = t \<and> nsfwflag row = f \<and> inst_name row = n \<and>
         u \<notin> uri ` set (instances st)"
  using assms
  by (auto simp: prisma_instances_create_def Let_def split: option.splits if_splits)

lemma force_unverified_noop:
  assumes upd: "prisma_instances_update_by_uri env u (\<lambda>r. r\<lparr>verified := False\<rparr>) s = Inr s2"
    and rows: "instances s = olds @ [row]" and old: "u \<notin> uri ` set olds"
    and new: "uri row = u" "verified row = False"
  shows "s2 = s"
proof -
  have same: "row\<lparr>verified := False\<rparr> = row"
    using new(2) by (cases row) simp
  have "update_first (\<lambda>r. uri r = u) (\<lambda>r. r\<lparr>verified := False\<rparr>) (olds @ row # []) =
          Some (olds @ row\<lparr>verified := False\<rparr> # [])"
  proof (rule update_first_at)
    show "\<forall>y\<in>set olds. \<not> uri y = u" using old by force
    show "uri row = u" by (rule new(1))
  qed
  with rows same have "update_first (\<lambda>r. uri r = u) (\<lambda>r. r\<lparr>verified := False\<rparr>) (instances s) =
          Some (instances s)"
    by simp
  with upd show ?thesis
    by (auto simp: prisma_instances_update_by_uri_def split: option.splits)
qed

lemma add_try_instances:
  assumes "add_try env req cd st = (res, st', evs)"
  shows "instances st' = instances st \<or>
         (\<exists>row. instances st' = instances st @ [row] \<and> verified row = False \<and>
                uri row = body_uri req \<and> inst_type row = body_type req \<and>
                nsfwflag row = body_nsfwflag req)"
proof (cases "prisma_instances_create env (case cd of None \<Rightarrow> None | Some c \<Rightarrow> cd_title c)
                (body_type req) (body_nsfwflag req) (body_uri req) False
                (json_stringify env cd) st")
  case (Inl e)
  with assms have "st' = st" by (simp add: add_try_def)
  then show ?thesis by simp
next
  case (Inr created)
  obtain row st1 where cr: "created = (row, st1)" by (cases created) auto
  note r = prisma_instances_create_result [OF Inr [unfolded cr]]
  have "st' = st1"
  proof (cases "prisma_instances_update_by_uri env (body_uri req) (\<lambda>r. r\<lparr>verified := False\<rparr>) st1")
    case (Inl e)
    with Inr cr assms show ?thesis by (simp add: add_try_def)
  next
    case (Inr st2)
    have "st2 = st1"
      using force_unverified_noop [OF Inr, of "instances st" row] r by simp
    with Inr \<open>prisma_instances_create env (case cd of None \<Rightarrow> None | Some c \<Rightarrow> cd_title c)
                (body_type req) (body_nsfwflag req) (body_uri req) False
                (json_stringify env cd) st = Inr created\<close> cr assms
    show ?thesis by (auto simp: add_try_def split: option.splits if_splits)
  qed
  with r show ?thesis by simp
qed

lemma add_handler_instances:
  "instances (fst (snd (add_handler env req st))) = instances st \<or>
   (\<exists>row. instances (fst (snd (add_handler env req st))) = instances st @ [row] \<and>
          verified row = False \<and> uri row = body_uri req \<and> inst_type row = body_type req \<and>
          nsfwflag row = body_nsfwflag req)"
proof -
  obtain r st' evs where h: "add_handler env req st = (r, st', evs)"
    by (cases "add_handler env req st") auto
  then have "st' = st \<or> (\<exists>cd res. add_try env req cd st = (res, st', evs))"
    by (auto simp: add_handler_def split: if_splits sum.splits option.splits prod.splits)
  then show ?thesis
  proof
    assume "st' = st"
    with h show ?thesis by simp
  next
    assume "\<exists>cd res. add_try env req cd st = (res, st', evs)"
    then obtain cd res where a: "add_try env req cd st = (res, st', evs)" by blast
    from add_try_instances [OF a] h show ?thesis by simp
  qed
qed

lemma prisma_instances_create_ok:
  assumes "storage_fault env (CreateInstances u) = None" and "u \<notin> uri ` set (instances st)"
  shows "\<exists>row st1. prisma_instances_create env n t f u v c st = Inr (row, st1)"
  using assms by (simp add: prisma_instances_create_def Let_def)

lemma add_handler_update_rejected:
  assumes "req_method req = ''POST''"
    and "testURI env 0 (body_uri req) = Inr (Some a)"
    and "testURI env 1 (body_uri req) = Inr cd"
    and "prisma_instances_create env (case cd of None \<Rightarrow> None | Some c \<Rightarrow> cd_title c)
           (body_type req) (body_nsfwflag req) (body_uri req) False (json_stringify env cd) st =
         Inr (row, st1)"
    and "storage_fault env (UpdateInstancesByUri (body_uri req)) = Some e"
  shows "add_handler env req st = (Inr (add_catch e), st1, [])"
  using assms
  by (simp add: add_handler_def add_try_def prisma_instances_update_by_uri_def)

lemma add_handler_update_accepted:
  assumes "req_method req = ''POST''"
    and "testURI env 0 (body_uri req) = Inr (Some a)"
    and "testURI env 1 (body_uri req) = Inr cd"
    and "prisma_instances_create env (case cd of None \<Rightarrow> None | Some c \<Rightarrow> cd_title c)
           (body_type req) (body_nsfwflag req) (body_uri req) False (json_stringify env cd) st =
         Inr (row, st1)"
    and "storage_fault env (UpdateInstancesByUri (body_uri req)) = None"
  shows "\<exists>b. fst (add_handler env req st) = Inr (Some \<lparr>status = 200, body = b\<rparr>)"
proof -
  note r = prisma_instances_create_result [OF assms(4)]
  from r have "\<exists>x\<in>set (instances st1). uri x = body_uri req" by auto
  then have "update_first (\<lambda>r. uri r = body_uri req) (\<lambda>r. r\<lparr>verified := False\<rparr>) (instances st1) \<noteq> None"
    by (simp add: update_first_None)
  then obtain rows where
    "update_first (\<lambda>r. uri r = body_uri req) (\<lambda>r. r\<lparr>verified := False\<rparr>) (instances st1) = Some rows"
    by blast
  with assms show ?thesis
    by (simp add: add_handler_def add_try_def prisma_instances_update_by_uri_def
        split: option.splits)
qed

text \<open>
  Claim C10. Whatever the request holds, the handler of \<^verbatim>\<open>add.ts\<close> either leaves the
  \<^verbatim>\<open>instances\<close> table as it is or appends one row, and that row has
  \<^verbatim>\<open>verified = false\<close> and the \<^verbatim>\<open>uri\<close>, \<^verbatim>\<open>type\<close> and
  \<^verbatim>\<open>nsfwflag\<close> of the request. The row is created with \<^verbatim>\<open>verified = false\<close>,
  and the update that follows, which writes \<^verbatim>\<open>verified = false\<close> to the row with
  that \<^verbatim>\<open>uri\<close>, leaves the store exactly as the creation left it. The handler does
  issue that update after a creation that went through: when the store rejects it, the
  reply is what the \<^verbatim>\<open>catch\<close> makes of the rejection, no message is posted and the
  row stays as created; when the store accepts it, the reply has status 200.
\<close>

theorem add_persists_unverified:
  "(instances (fst (snd (add_handler env req st))) = instances st \<or>
    (\<exists>row. instances (fst (snd (add_handler env req st))) = instances st @ [row] \<and>
           verified row = False \<and> uri row = body_uri req \<and> inst_type row = body_type req \<and>
           nsfwflag row = body_nsfwflag req)) \<and>
   (\<forall>row st1 st2.
      prisma_instances_create env n (body_type req) (body_nsfwflag req) (body_uri req) False c st =
        Inr (row, st1) \<and>
      prisma_instances_update_by_uri env (body_uri req) (\<lambda>r. r\<lparr>verified := False\<rparr>) st1 = Inr st2
      \<longrightarrow> verified row = False \<and> st2 = st1) \<and>
   (\<forall>a cd e.
      req_method req = ''POST'' \<and> testURI env 0 (body_uri req) = Inr (Some a) \<and>
      testURI env 1 (body_uri req) = Inr cd \<and>
      storage_fault env (CreateInstances (body_uri req)) = None \<and>
      body_uri req \<notin> uri ` set (instances st) \<and>
      storage_fault env (UpdateInstancesByUri (body_uri req)) = Some e
      \<longrightarrow> fst (add_handler env req st) = Inr (add_catch e) \<and>
          snd (snd (add_handler env req st)) = [] \<and>
          (\<exists>row. instances (fst (snd (add_handler env req st))) = instances st @ [row] \<and>
                 verified row = False \<and> uri row = body_uri req)) \<and>
   (\<forall>a cd.
      req_method req = ''POST'' \<and> testURI env 0 (body_uri req) = Inr (Some a) \<and>
      testURI env 1 (body_uri req) = Inr cd \<and>
      storage_fault env (CreateInstances (body_uri req)) = None \<and>
      body_uri req \<notin> uri ` set (instances st) \<and>
      storage_fault env (UpdateInstancesByUri (body_uri req)) = None
      \<longrightarrow> (\<exists>b. fst (add_handler env req st) = Inr (Some \<lparr>status = 200, body = b\<rparr>)) \<and>
          (\<exists>row. instances (fst (snd (add_handler env req st))) = instances st @ [row] \<and>
                 verified row = False \<and> uri row = body_uri req))"
proof (intro conjI allI impI)
  show "instances (fst (snd (add_handler env req st))) = instances st \<or>
    (\<exists>row. instances (fst (snd (add_handler env req st))) = instances st @ [row] \<and>
           verified row = False \<and> uri row = body_uri req \<and> inst_type row = body_type req \<and>
           nsfwflag row = body_nsfwflag req)"
    by (rule add_handler_instances)
next
  fix row st1 st2
  assume h: "prisma_instances_create env n (body_type req) (body_nsfwflag req) (body_uri req) False c st =
        Inr (row, st1) \<and>
      prisma_instances_update_by_uri env (body_uri req) (\<lambda>r. r\<lparr>verified := False\<rparr>) st1 = Inr st2"
  note r = prisma_instances_create_result [OF h [THEN conjunct1]]
  from r show "verified row = False" by simp
  show "st2 = st1"
    using force_unverified_noop [OF h [THEN conjunct2], of "instances st" row] r by simp
next
  fix a cd e
  assume h: "req_method req = ''POST'' \<and> testURI env 0 (body_uri req) = Inr (Some a) \<and>
      testURI env 1 (body_uri req) = Inr cd \<and>
      storage_fault env (CreateInstances (body_uri req)) = None \<and>
      body_uri req \<notin> uri ` set (instances st) \<and>
      storage_fault env (UpdateInstancesByUri (body_uri req)) = Some e"
  then obtain row st1 where cr:
    "prisma_instances_create env (case cd of None \<Rightarrow> None | Some c \<Rightarrow> cd_title c)
       (body_type req) (body_nsfwflag req) (body_uri req) False (json_stringify env cd) st =
     Inr (row, st1)"
    using prisma_instances_create_ok by blast
  note r = prisma_instances_create_result [OF cr]
  from h have eq: "add_handler env req st = (Inr (add_catch e), st1, [])"
    by (intro add_handler_update_rejected [OF _ _ _ cr]) simp_all
  from eq show "fst (add_handler env req st) = Inr (add_catch e)" by simp
  from eq show "snd (snd (add_handler env req st)) = []" by simp
  from eq r show "\<exists>row. instances (fst (snd (add_handler env req st))) = instances st @ [row] \<and>
                 verified row = False \<and> uri row = body_uri req" by simp
next
  fix a cd
  assume h: "req_method req = ''POST'' \<and> testURI env 0 (body_uri req) = Inr (Some a) \<and>
      testURI env 1 (body_uri req) = Inr cd \<and>
      storage_fault env (CreateInstances (body_uri req)) = None \<and>
      body_uri req \<notin> uri ` set (instances st) \<and>
      storage_fault env (UpdateInstancesByUri (body_uri req)) = None"
  then obtain row st1 where cr:
    "prisma_instances_create env (case cd of None \<Rightarrow> None | Some c \<Rightarrow> cd_title c)
       (body_type req) (body_nsfwflag req) (body_uri req) False (json_stringify env cd) st =
     Inr (row, st1)"
    using prisma_instances_create_ok by blast
  from h show "\<exists>b. fst (add_handler env req st) = Inr (Some \<lparr>status = 200, body = b\<rparr>)"
    by (intro add_handler_update_accepted [OF _ _ _ cr]) simp_all
  then obtain b where ok: "fst (add_handler env req st) = Inr (Some \<lparr>status = 200, body = b\<rparr>)"
    by blast
  have "instances (fst (snd (add_handler env req st))) \<noteq> instances st"
  proof
    assume same: "instances (fst (snd (add_handler env req st))) = instances st"
    obtain res st' evs where ah: "add_handler env req st = (res, st', evs)"
      by (cases "add_handler env req st") auto
    note r = prisma_instances_create_result [OF cr]
    from h cr ah have "st' = st1 \<or> (\<exists>st2. prisma_instances_update_by_uri env (body_uri req)
                         (\<lambda>r. r\<lparr>verified := False\<rparr>) st1 = Inr st2 \<and> st' = st2)"
      by (auto simp: add_handler_def add_try_def split: sum.splits option.splits if_splits)
    then have "st' = st1"
      using force_unverified_noop [of env "body_uri req" st1 _ "instances st" row] r by auto
    with same ah r show False by simp
  qed
  with add_handler_instances [of env req st]
  show "\<exists>row. instances (fst (snd (add_handler env req st))) = instances st @ [row] \<and>
                 verified row = False \<and> uri row = body_uri req" by blast
qed

lemma create_ex:
  "prisma_instances_create env_ex (Some ''New'') (body_type areq_ex) (body_nsfwflag areq_ex)
     (body_uri areq_ex) False ''{}'' st_ex = Inr (row_added, st_added)"
  by (simp add: prisma_instances_create_def Let_def ex_defs areq_ex_def row_added_def st_added_def)

lemma force_ex:
  "\<exists>st2. prisma_instances_update_by_uri env_ex (body_uri areq_ex) (\<lambda>r. r\<lparr>verified := False\<rparr>)
           st_added = Inr st2"
  by (simp add: prisma_instances_update_by_uri_def ex_defs areq_ex_def row_added_def st_added_def)

lemma add_ex_length:
  "length (instances (fst (snd (add_handler env_ex areq_ex st_ex)))) = 5"
  by (simp add: add_handler_def add_try_def prisma_instances_create_def
      prisma_instances_update_by_uri_def Let_def ex_defs areq_ex_def)

text \<open>
  Registering \<^verbatim>\<open>n.example\<close> in the example, and once more with the update by
  \<^verbatim>\<open>uri\<close> rejected.
\<close>

theorem add_persists_unverified_witness:
  "(\<exists>row. instances (fst (snd (add_handler env_ex areq_ex st_ex))) = instances st_ex @ [row] \<and>
          verified row = False \<and> uri row = ''n.example'') \<and>
   verified row_added = False \<and>
   prisma_instances_update_by_uri env_ex ''n.example'' (\<lambda>r. r\<lparr>verified := False\<rparr>) st_added =
     Inr st_added \<and>
   fst (add_handler env_update_fault areq_ex st_ex) =
     Inr (Some \<lparr>status = 400,
                body = [(''message'', ''Timed out fetching a new connection from the connection pool.''),
                        (''type'', ''error'')]\<rparr>) \<and>
   snd (snd (add_handler env_update_fault areq_ex st_ex)) = [] \<and>
   (\<exists>row. instances (fst (snd (add_handler env_update_fault areq_ex st_ex))) =
            instances st_ex @ [row] \<and> verified row = False \<and> uri row = ''n.example'') \<and>
   (\<exists>b. fst (add_handler env_ex areq_ex st_ex) = Inr (Some \<lparr>status = 200, body = b\<rparr>))"
proof -
  note inst = add_persists_unverified [of env_ex areq_ex st_ex "Some ''New''" "''{}''"]
  note inst_f = add_persists_unverified [of env_update_fault areq_ex st_ex None "[]"]
  have "length (instances st_ex) = 4" by (simp add: st_ex_def)
  with add_ex_length inst [THEN conjunct1]
  have a: "\<exists>row. instances (fst (snd (add_handler env_ex areq_ex st_ex))) = instances st_ex @ [row] \<and>
          verified row = False \<and> uri row = ''n.example''"
    by (auto simp: areq_ex_def)
  obtain st2 where u: "prisma_instances_update_by_uri env_ex (body_uri areq_ex)
                         (\<lambda>r. r\<lparr>verified := False\<rparr>) st_added = Inr st2"
    using force_ex by blast
  from inst [THEN conjunct2, THEN conjunct1, rule_format, of row_added st_added st2] create_ex u
  have b: "verified row_added = False \<and> st2 = st_added" by blast
  have hyp_f: "req_method areq_ex = ''POST'' \<and>
      testURI env_update_fault 0 (body_uri areq_ex) =
        Inr (Some \<lparr>cd_title = Some ''New'', cd_contact_username = Some ''admin''\<rparr>) \<and>
      testURI env_update_fault 1 (body_uri areq_ex) =
        Inr (Some \<lparr>cd_title = Some ''New'', cd_contact_username = Some ''admin''\<rparr>) \<and>
      storage_fault env_update_fault (CreateInstances (body_uri areq_ex)) = None \<and>
      body_uri areq_ex \<notin> uri ` set (instances st_ex) \<and>
      storage_fault env_update_fault (UpdateInstancesByUri (body_uri areq_ex)) =
        Some (PrismaClientKnownRequestError ''P2024''
               ''Timed out fetching a new connection from the connection pool.'')"
    by (simp add: env_update_fault_def ex_defs areq_ex_def)
  from inst_f [THEN conjunct2, THEN conjunct2, THEN conjunct1, rule_format, OF hyp_f]
  have c: "fst (add_handler env_update_fault areq_ex st_ex) =
      Inr (Some \<lparr>status = 400,
                 body = [(''message'', ''Timed out fetching a new connection from the connection pool.''),
                         (''type'', ''error'')]\<rparr>) \<and>
    snd (snd (add_handler env_update_fault areq_ex st_ex)) = [] \<and>
    (\<exists>row. instances (fst (snd (add_handler env_update_fault areq_ex st_ex))) =
             instances st_ex @ [row] \<and> verified row = False \<and> uri row = ''n.example'')"
    by (simp add: areq_ex_def)
  have hyp_ok: "req_method areq_ex = ''POST'' \<and>
      testURI env_ex 0 (body_uri areq_ex) =
        Inr (Some \<lparr>cd_title = Some ''New'', cd_contact_username = Some ''admin''\<rparr>) \<and>
      testURI env_ex 1 (body_uri areq_ex) =
        Inr (Some \<lparr>cd_title = Some ''New'', cd_contact_username = Some ''admin''\<rparr>) \<and>
      storage_fault env_ex (CreateInstances (body_uri areq_ex)) = None \<and>
      body_uri areq_ex \<notin> uri ` set (instances st_ex) \<and>
      storage_fault env_ex (UpdateInstancesByUri (body_uri areq_ex)) = None"
    by (simp add: ex_defs areq_ex_def)
  from inst [THEN conjunct2, THEN conjunct2, THEN conjunct2, rule_format, OF hyp_ok]
  have d: "\<exists>b. fst (add_handler env_ex areq_ex st_ex) = Inr (Some \<lparr>status = 200, body = b\<rparr>)"
    by blast
  from a b u c d show ?thesis by (simp add: areq_ex_def)
qed

section \<open>Banned rows\<close>

lemma all2_kept_never_unbans:
  "list_all2 kept (instances st) (instances st') \<Longrightarrow> never_unbans st st'"
  by (simp add: never_unbans_def list_all2_conv_all_nth)

lemma add_handler_never_unbans: "never_unbans st (fst (snd (add_handler env areq st)))"
  using add_handler_instances [of env areq st]
  by (auto simp: never_unbans_def kept_refl nth_append)

text \<open>
  Claim C6. Every probe call of a sweep is made for a row that was not banned when the
  sweep started; with ids that are unique, no probe call is made for a row that was banned.
  A row that is banned before a sweep is banned after it, and the same holds for the
  registration handler: nothing sets \<^verbatim>\<open>banned\<close> back to false.
\<close>

theorem banned_rows_skipped_and_stay_banned:
  "(\<forall>k u m. Probe k u m \<in> set (snd (snd (GET env request st))) \<longrightarrow>
      (\<exists>r\<in>set (instances st). \<not> banned r \<and> k = inst_id r \<and> u = uri r \<and> m = api_mode r)) \<and>
   (distinct (map inst_id (instances st)) \<longrightarrow>
      (\<forall>r\<in>set (instances st). banned r \<longrightarrow>
         (\<forall>u m. Probe (inst_id r) u m \<notin> set (snd (snd (GET env request st)))))) \<and>
   never_unbans st (fst (snd (GET env request st))) \<and>
   never_unbans st (fst (snd (add_handler env areq st)))"
proof -
  note g = GET_kept [of st env request]
  have a: "\<exists>r\<in>set (instances st). \<not> banned r \<and> k = inst_id r \<and> u = uri r \<and> m = api_mode r"
    if "Probe k u m \<in> set (snd (snd (GET env request st)))" for k u m
  proof -
    from g that have "Probe k u m \<in> probe_of ` {r \<in> set (instances st). \<not> banned r}"
      by blast
    then show ?thesis by (auto simp: probe_of_def)
  qed
  have b: "Probe (inst_id r) u m \<notin> set (snd (snd (GET env request st)))"
    if d: "distinct (map inst_id (instances st))" and r: "r \<in> set (instances st)" "banned r"
    for r u m
  proof
    assume "Probe (inst_id r) u m \<in> set (snd (snd (GET env request st)))"
    from a [OF this] obtain r' where r': "r' \<in> set (instances st)" "\<not> banned r'"
      "inst_id r = inst_id r'" by blast
    from d have "inj_on inst_id (set (instances st))" by (simp add: distinct_map)
    with r(1) r'(1) r'(3) have "r = r'" by (auto dest: inj_onD)
    with r(2) r'(2) show False by simp
  qed
  from a b g all2_kept_never_unbans [of st "fst (snd (GET env request st))"]
    add_handler_never_unbans [of st env areq]
  show ?thesis by blast
qed

text \<open>The banned fourth row of the example.\<close>

theorem banned_rows_skipped_and_stay_banned_witness:
  "Probe 4 ''d.example'' ''mastodon'' \<notin> set (snd (snd (GET env_ex req_ex st_ex))) \<and>
   banned (instances (fst (snd (GET env_ex req_ex st_ex))) ! 3) \<and>
   banned (instances (fst (snd (add_handler env_ex areq_ex st_ex))) ! 3)"
proof -
  note inst = banned_rows_skipped_and_stay_banned [of env_ex req_ex st_ex areq_ex]
  have d: "distinct (map inst_id (instances st_ex))"
    by (simp add: ex_defs)
  have r: "mk_row 4 ''d.example'' 5 True \<in> set (instances st_ex)" "banned (mk_row 4 ''d.example'' 5 True)"
    by (simp_all add: st_ex_def mk_row_def)
  from inst [THEN conjunct2, THEN conjunct1, rule_format, OF d r, of "''d.example''" "''mastodon''"]
  have p: "Probe 4 ''d.example'' ''mastodon'' \<notin> set (snd (snd (GET env_ex req_ex st_ex)))"
    by (simp add: mk_row_def)
  have i: "3 < length (instances st_ex)" "banned (instances st_ex ! 3)"
    by (simp_all add: st_ex_def mk_row_def)
  from inst [THEN conjunct2, THEN conjunct2, THEN conjunct1] i
  have g: "banned (instances (fst (snd (GET env_ex req_ex st_ex))) ! 3)"
    unfolding never_unbans_def kept_def by blast
  from inst [THEN conjunct2, THEN conjunct2, THEN conjunct2] i
  have h: "banned (instances (fst (snd (add_handler env_ex areq_ex st_ex))) ! 3)"
    unfolding never_unbans_def kept_def by blast
  from p g h show ?thesis by blast
qed


section \<open>Errors while a row is processed\<close>




lemma update_first_hit:
  assumes "update_first P f xs = Some ys" and "x \<in> set xs" and "P x"
    and "\<forall>y\<in>set xs. P y \<longrightarrow> y = x"
  shows "f x \<in> set ys"
proof -
  from update_first_split [OF assms(1)] obtain pre z post where
    z: "xs = pre @ z # post" "P z" "ys = pre @ f z # post" by blast
  with assms(4) have "z = x" by simp
  with z(3) show ?thesis by simp
qed

lemma distinct_key_unique:
  "distinct (map key xs) \<Longrightarrow> x \<in> set xs \<Longrightarrow> y \<in> set xs \<Longrightarrow> key y = key x \<Longrightarrow> y = x"
  by (auto simp: distinct_map dest: inj_onD)



























section \<open>The response of a sweep that ends early or runs to its end\<close>






end
